theory Spec2Isabelle
  imports Main
begin

section \<open>The test context and the calls made on it\<close>

text \<open>
  Package \<open>assert\<close> (assert.go) never reads its \<open>TestingT\<close> argument: it only calls
  its methods, the source-recovery function and the comparison it was given. The model
  therefore threads one record through every function: what kind of context \<open>t\<close> is,
  and the calls made so far, oldest first.
\<close>

datatype call =
    CalledHelper
  | CalledLog string
  | CalledFail
  | CalledFailNow
  | CalledFormattedCallExprArg int int
  | CalledCompareFunc
  | CalledComparison

record world =
  implementsHelperT :: bool
  failNowExits :: bool
  trace :: "call list"

text \<open>
  \<open>implementsHelperT\<close> is the result of the type assertion \<open>t.(helperT)\<close>.
  \<open>failNowExits\<close> says whether \<open>t.FailNow()\<close> unwinds the calling goroutine, as
  \<open>testing.T\<close> does, or returns, as a recording fake does.
\<close>

datatype 'a outcome = Returned 'a | Exited | Panicked string

definition record_call :: "call \<Rightarrow> world \<Rightarrow> world" where
  "record_call c w = w\<lparr>trace := trace w @ [c]\<rparr>"

definition Helper :: "world \<Rightarrow> world" where
  "Helper w = record_call CalledHelper w"

definition Log :: "string \<Rightarrow> world \<Rightarrow> world" where
  "Log s w = record_call (CalledLog s) w"

definition Fail :: "world \<Rightarrow> unit outcome \<times> world" where
  "Fail w = (Returned (), record_call CalledFail w)"

definition FailNow :: "world \<Rightarrow> unit outcome \<times> world" where
  "FailNow w =
     (if failNowExits w then Exited else Returned (), record_call CalledFailNow w)"

text \<open>The idiom \<open>if ht, ok := t.(helperT); ok { ht.Helper() }\<close>.\<close>

definition helperT_check :: "world \<Rightarrow> world" where
  "helperT_check w = (if implementsHelperT w then Helper w else w)"

text \<open>
  The code of the caller that follows a call: it runs only when the call returns.
\<close>

definition andThen ::
  "(world \<Rightarrow> 'a outcome \<times> world) \<Rightarrow> ('a \<Rightarrow> world \<Rightarrow> 'b outcome \<times> world)
     \<Rightarrow> world \<Rightarrow> 'b outcome \<times> world" where
  "andThen m k w =
     (case m w of
        (Returned a, w') \<Rightarrow> k a w'
      | (Exited, w') \<Rightarrow> (Exited, w')
      | (Panicked s, w') \<Rightarrow> (Panicked s, w'))"

section \<open>Comparison values and the packages assert.go imports\<close>

text \<open>
  Modelled from the spec: \<open>cmp.Result\<close> (package \<open>assert/cmp\<close> is not among the
  sources). The spec's data model gives it two variants, success and failure with a
  message.
\<close>

datatype Result = Success | Failure string

text \<open>
  Modelled from the spec: the type \<open>astExprListFilter\<close> and its two values are declared
  in a file that is not among the sources. The spec names the two policies; \<open>assert\<close>
  only passes the policy on.
\<close>

datatype astExprListFilter = filterExprArgsFromComparison | filterExprExcludeFirst

text \<open>
  \<open>BoolOrComparison\<close> is \<open>interface{}\<close>: the constructors are the dynamic types the
  type switch of \<open>assert\<close> tells apart, in its order, and \<open>OtherType\<close> carries the
  \<open>%T\<close> name of any other dynamic type. Comparison callables are total and free of
  effects, as the data model of the spec has them; that the code calls one is recorded
  in the trace.
\<close>

datatype BoolOrComparison =
    IsBool bool
  | IsCompareFunc "unit \<Rightarrow> bool \<times> string"
  | IsComparison "unit \<Rightarrow> Result"
  | IsResultFunc "unit \<Rightarrow> Result"
  | OtherType string

text \<open>
  What assert.go calls in packages \<open>internal/format\<close>, \<open>internal/source\<close> and
  \<open>assert/cmp\<close>, none of them among the sources, taken as parameters. \<open>'a\<close> is the
  type of the \<open>interface{}\<close> values in \<open>msgAndArgs\<close>. An \<open>error\<close> is \<open>None\<close> for nil
  and otherwise the text of \<open>err.Error()\<close>.
\<close>

record 'a externals =
  WithCustomMessage :: "string \<Rightarrow> 'a list \<Rightarrow> string"
  FormattedCallExprArg :: "int \<Rightarrow> int \<Rightarrow> string \<times> string option"
  cmp_NilError :: "string option \<Rightarrow> unit \<Rightarrow> Result"
  cmp_Equal :: "'a \<Rightarrow> 'a \<Rightarrow> unit \<Rightarrow> Result"

section \<open>assert.go\<close>

definition failureMessage :: string where
  "failureMessage = ''assertion failed: ''"

definition runCompareFunc ::
  "'a externals \<Rightarrow> world \<Rightarrow> (unit \<Rightarrow> bool \<times> string) \<Rightarrow> 'a list \<Rightarrow> bool \<times> world" where
  "runCompareFunc ext t f msgAndArgs =
     (let t1 = helperT_check t;
          t2 = record_call CalledCompareFunc t1;
          (success, message) = f ()
      in if \<not> success
         then (False, Log (WithCustomMessage ext (failureMessage @ message) msgAndArgs) t2)
         else (True, t2))"

text \<open>
  Modelled from the spec: \<open>runComparison\<close> is defined in a file of package \<open>assert\<close>
  that is not among the sources. Section 4.1, step 3: invoke the comparison once to
  obtain a Result; if Failure, log \<open>"assertion failed: " + result.message\<close> merged with
  the extra parts, the argument-filter policy being metadata only; on success return
  true without logging.
\<close>

definition runComparison ::
  "'a externals \<Rightarrow> world \<Rightarrow> astExprListFilter \<Rightarrow> (unit \<Rightarrow> Result) \<Rightarrow> 'a list
     \<Rightarrow> bool \<times> world" where
  "runComparison ext t argsFilter f msgAndArgs =
     (let t1 = record_call CalledComparison t
      in case f () of
           Success \<Rightarrow> (True, t1)
         | Failure message \<Rightarrow>
             (False, Log (WithCustomMessage ext (failureMessage @ message) msgAndArgs) t1))"

definition logFailureFromBool :: "'a externals \<Rightarrow> world \<Rightarrow> 'a list \<Rightarrow> world" where
  "logFailureFromBool ext t msgAndArgs =
     (let stackIndex = 3;
          comparisonArgPos = 1;
          t1 = record_call (CalledFormattedCallExprArg stackIndex comparisonArgPos) t;
          (source, err) = FormattedCallExprArg ext stackIndex comparisonArgPos;
          t2 = (case err of None \<Rightarrow> t1 | Some e \<Rightarrow> Log e t1);
          msg = '' is false''
      in Log (WithCustomMessage ext (failureMessage @ source @ msg) msgAndArgs) t2)"

text \<open>
  The end of \<open>assert\<close>, after the type switch:
  \<open>if success { return true }; failer(); return false\<close>.
\<close>

definition after_switch ::
  "(world \<Rightarrow> unit outcome \<times> world) \<Rightarrow> bool \<times> world \<Rightarrow> bool outcome \<times> world" where
  "after_switch failer r =
     (case r of (success, t) \<Rightarrow>
        if success then (Returned True, t)
        else (case failer t of
                (Returned u, t') \<Rightarrow> (Returned False, t')
              | (Exited, t') \<Rightarrow> (Exited, t')
              | (Panicked s, t') \<Rightarrow> (Panicked s, t')))"

definition assert ::
  "'a externals \<Rightarrow> world \<Rightarrow> (world \<Rightarrow> unit outcome \<times> world) \<Rightarrow> astExprListFilter
     \<Rightarrow> BoolOrComparison \<Rightarrow> 'a list \<Rightarrow> bool outcome \<times> world" where
  "assert ext t failer argsFilter comparison msgAndArgs =
     (let t1 = helperT_check t
      in case comparison of
           IsBool check \<Rightarrow>
             if check then (Returned True, t1)
             else after_switch failer (False, logFailureFromBool ext t1 msgAndArgs)
         | IsCompareFunc check \<Rightarrow>
             after_switch failer (runCompareFunc ext t1 check msgAndArgs)
         | IsComparison check \<Rightarrow>
             after_switch failer (runComparison ext t1 argsFilter check msgAndArgs)
         | IsResultFunc check \<Rightarrow>
             after_switch failer (runComparison ext t1 argsFilter check msgAndArgs)
         | OtherType ty \<Rightarrow>
             (Panicked (''comparison arg must be bool or Comparison, not '' @ ty), t1))"

text \<open>A call whose result the caller drops.\<close>

definition discard :: "'a outcome \<times> world \<Rightarrow> unit outcome \<times> world" where
  "discard r = (case r of (out, t) \<Rightarrow> (map_outcome (\<lambda>_. ()) out, t))"

definition Assert ::
  "'a externals \<Rightarrow> world \<Rightarrow> BoolOrComparison \<Rightarrow> 'a list \<Rightarrow> unit outcome \<times> world" where
  "Assert ext t comparison msgAndArgs =
     discard (assert ext (helperT_check t) FailNow filterExprArgsFromComparison
                comparison msgAndArgs)"

definition Check ::
  "'a externals \<Rightarrow> world \<Rightarrow> BoolOrComparison \<Rightarrow> 'a list \<Rightarrow> bool outcome \<times> world" where
  "Check ext t comparison msgAndArgs =
     assert ext (helperT_check t) Fail filterExprArgsFromComparison comparison msgAndArgs"



section \<open>Vocabulary of the properties\<close>

text \<open>The \<open>Helper()\<close> calls one \<open>helperT\<close> check makes: one, or none.\<close>

definition helperCalls :: "world \<Rightarrow> call list" where
  "helperCalls w = (if implementsHelperT w then [CalledHelper] else [])"

text \<open>
  When a comparison counts as succeeded: a bool that is true, a legacy function whose
  first result is true, a structured comparison whose Result is Success.
\<close>

fun comparison_succeeded :: "BoolOrComparison \<Rightarrow> bool" where
  "comparison_succeeded (IsBool b) = b"
| "comparison_succeeded (IsCompareFunc f) = fst (f ())"
| "comparison_succeeded (IsComparison f) = (f () = Success)"
| "comparison_succeeded (IsResultFunc f) = (f () = Success)"
| "comparison_succeeded (OtherType ty) = False"

fun recognized :: "BoolOrComparison \<Rightarrow> bool" where
  "recognized (OtherType ty) = False"
| "recognized c = True"

text \<open>The messages passed to \<open>t.Log\<close>, in order, and the calls that fail the test.\<close>

fun logged :: "call list \<Rightarrow> string list" where
  "logged [] = []"
| "logged (CalledLog s # cs) = s # logged cs"
| "logged (c # cs) = logged cs"

definition escalations :: "call list \<Rightarrow> call list" where
  "escalations cs = filter (\<lambda>c. c = CalledFail \<or> c = CalledFailNow) cs"



text \<open>
  Sample surroundings for concrete runs: a source tree in which recovery finds the
  expression \<open>total != 10\<close>, one in which it cannot read the file, a context that
  behaves as \<open>testing.T\<close> does and a minimal recording fake.
\<close>

definition sourceFound :: "string externals" where
  "sourceFound =
     \<lparr>WithCustomMessage = (\<lambda>s args. if args = [] then s else s @ '': '' @ concat args),
      FormattedCallExprArg = (\<lambda>i j. (''total != 10'', None)),
      cmp_NilError = (\<lambda>err u. case err of None \<Rightarrow> Success | Some e \<Rightarrow> Failure e),
      cmp_Equal = (\<lambda>x y u. if x = y then Success else Failure (x @ '' != '' @ y))\<rparr>"

definition sourceMissing :: "string externals" where
  "sourceMissing =
     sourceFound\<lparr>FormattedCallExprArg := (\<lambda>i j. ([], Some ''failed to read source''))\<rparr>"

definition testingT :: world where
  "testingT = \<lparr>implementsHelperT = True, failNowExits = True, trace = []\<rparr>"

definition fakeT :: world where
  "fakeT = \<lparr>implementsHelperT = False, failNowExits = False, trace = []\<rparr>"

section \<open>Basic facts\<close>

lemmas model_defs = assert_def after_switch_def runCompareFunc_def runComparison_def
  logFailureFromBool_def helperT_check_def Helper_def Log_def Fail_def FailNow_def
  record_call_def Assert_def Check_def discard_def failureMessage_def Let_def

lemma logged_append: "logged (xs @ ys) = logged xs @ logged ys"
  by (induction xs rule: logged.induct) simp_all

lemma logged_helperCalls: "logged (helperCalls t) = []"
  by (simp add: helperCalls_def)

lemma helperT_check_eq: "helperT_check t = t\<lparr>trace := trace t @ helperCalls t\<rparr>"
  by (simp add: helperT_check_def helperCalls_def Helper_def record_call_def)

lemma helperCalls_update: "helperCalls (t\<lparr>trace := tr\<rparr>) = helperCalls t"
  by (simp add: helperCalls_def)

lemma assert_failing:
  assumes "recognized c" and "\<not> comparison_succeeded c"
  shows "\<exists>pre msg. assert ext t failer af c m =
           after_switch failer (False, t\<lparr>trace := trace t @ pre @ [CalledLog msg]\<rparr>)
         \<and> CalledFail \<notin> set pre \<and> CalledFailNow \<notin> set pre"
proof (cases c)
  case (IsBool b)
  let ?pre = "helperCalls t @ [CalledFormattedCallExprArg 3 1]
                @ (case snd (FormattedCallExprArg ext 3 1) of None \<Rightarrow> [] | Some e \<Rightarrow> [CalledLog e])"
  let ?msg = "WithCustomMessage ext (failureMessage @ fst (FormattedCallExprArg ext 3 1) @ '' is false'') m"
  from IsBool assms have "assert ext t failer af c m =
      after_switch failer (False, t\<lparr>trace := trace t @ ?pre @ [CalledLog ?msg]\<rparr>)"
    by (simp add: assert_def logFailureFromBool_def helperT_check_eq Log_def record_call_def Let_def
        split: prod.splits option.splits)
  moreover have "CalledFail \<notin> set ?pre \<and> CalledFailNow \<notin> set ?pre"
    by (simp add: helperCalls_def split: option.splits)
  ultimately show ?thesis by blast
next
  case (IsCompareFunc f)
  let ?pre = "helperCalls t @ helperCalls t @ [CalledCompareFunc]"
  let ?msg = "WithCustomMessage ext (failureMessage @ snd (f ())) m"
  from IsCompareFunc assms have "assert ext t failer af c m =
      after_switch failer (False, t\<lparr>trace := trace t @ ?pre @ [CalledLog ?msg]\<rparr>)"
    by (cases "f ()")
      (simp add: assert_def runCompareFunc_def helperT_check_eq helperCalls_update Log_def
        record_call_def Let_def)
  moreover have "CalledFail \<notin> set ?pre \<and> CalledFailNow \<notin> set ?pre"
    by (simp add: helperCalls_def)
  ultimately show ?thesis by blast
next
  case (IsComparison f)
  with assms obtain msg where f: "f () = Failure msg" by (cases "f ()") auto
  let ?pre = "helperCalls t @ [CalledComparison]"
  let ?msg = "WithCustomMessage ext (failureMessage @ msg) m"
  from IsComparison f have "assert ext t failer af c m =
      after_switch failer (False, t\<lparr>trace := trace t @ ?pre @ [CalledLog ?msg]\<rparr>)"
    by (simp add: assert_def runComparison_def helperT_check_eq Log_def record_call_def Let_def)
  moreover have "CalledFail \<notin> set ?pre \<and> CalledFailNow \<notin> set ?pre"
    by (simp add: helperCalls_def)
  ultimately show ?thesis by blast
next
  case (IsResultFunc f)
  with assms obtain msg where f: "f () = Failure msg" by (cases "f ()") auto
  let ?pre = "helperCalls t @ [CalledComparison]"
  let ?msg = "WithCustomMessage ext (failureMessage @ msg) m"
  from IsResultFunc f have "assert ext t failer af c m =
      after_switch failer (False, t\<lparr>trace := trace t @ ?pre @ [CalledLog ?msg]\<rparr>)"
    by (simp add: assert_def runComparison_def helperT_check_eq Log_def record_call_def Let_def)
  moreover have "CalledFail \<notin> set ?pre \<and> CalledFailNow \<notin> set ?pre"
    by (simp add: helperCalls_def)
  ultimately show ?thesis by blast
next
  case (OtherType ty)
  with assms show ?thesis by simp
qed

lemma assert_succeeding:
  assumes "comparison_succeeded c"
  shows "\<exists>new. assert ext t failer af c m = (Returned True, t\<lparr>trace := trace t @ new\<rparr>)
           \<and> set new \<subseteq> {CalledHelper, CalledCompareFunc, CalledComparison}"
proof (cases c)
  case (IsBool b)
  with assms have "assert ext t failer af c m = (Returned True, t\<lparr>trace := trace t @ helperCalls t\<rparr>)"
    by (simp add: assert_def helperT_check_eq)
  moreover have "set (helperCalls t) \<subseteq> {CalledHelper, CalledCompareFunc, CalledComparison}"
    by (auto simp: helperCalls_def)
  ultimately show ?thesis by blast
next
  case (IsCompareFunc f)
  with assms have "assert ext t failer af c m =
      (Returned True, t\<lparr>trace := trace t @ helperCalls t @ helperCalls t @ [CalledCompareFunc]\<rparr>)"
    by (cases "f ()")
      (simp add: assert_def runCompareFunc_def after_switch_def helperT_check_eq helperCalls_update
        record_call_def Let_def)
  moreover have "set (helperCalls t @ helperCalls t @ [CalledCompareFunc])
                   \<subseteq> {CalledHelper, CalledCompareFunc, CalledComparison}"
    by (auto simp: helperCalls_def)
  ultimately show ?thesis by blast
next
  case (IsComparison f)
  with assms have "assert ext t failer af c m =
      (Returned True, t\<lparr>trace := trace t @ helperCalls t @ [CalledComparison]\<rparr>)"
    by (simp add: assert_def runComparison_def after_switch_def helperT_check_eq record_call_def Let_def)
  moreover have "set (helperCalls t @ [CalledComparison])
                   \<subseteq> {CalledHelper, CalledCompareFunc, CalledComparison}"
    by (auto simp: helperCalls_def)
  ultimately show ?thesis by blast
next
  case (IsResultFunc f)
  with assms have "assert ext t failer af c m =
      (Returned True, t\<lparr>trace := trace t @ helperCalls t @ [CalledComparison]\<rparr>)"
    by (simp add: assert_def runComparison_def after_switch_def helperT_check_eq record_call_def Let_def)
  moreover have "set (helperCalls t @ [CalledComparison])
                   \<subseteq> {CalledHelper, CalledCompareFunc, CalledComparison}"
    by (auto simp: helperCalls_def)
  ultimately show ?thesis by blast
next
  case (OtherType ty)
  with assms show ?thesis by simp
qed

lemma after_switch_Fail:
  "after_switch Fail (False, t) = (Returned False, t\<lparr>trace := trace t @ [CalledFail]\<rparr>)"
  by (simp add: after_switch_def Fail_def record_call_def)

lemma after_switch_FailNow:
  "after_switch FailNow (False, t) =
     (if failNowExits t then Exited else Returned False, t\<lparr>trace := trace t @ [CalledFailNow]\<rparr>)"
  by (simp add: after_switch_def FailNow_def record_call_def)

lemma after_switch_snd: "snd (after_switch failer (False, t)) = snd (failer t)"
  by (cases "failer t") (simp add: after_switch_def split: outcome.splits)

lemma after_switch_fst_returns:
  "fst (failer t) = Returned u \<Longrightarrow> fst (after_switch failer (False, t)) = Returned False"
  by (cases "failer t") (simp add: after_switch_def)

lemma after_switch_not_True: "fst (after_switch failer (False, t)) \<noteq> Returned True"
  by (cases "failer t") (simp add: after_switch_def split: outcome.splits)










section \<open>The claims\<close>

text \<open>
  C1, amended. For every recognised comparison value and every escalation,
  \<open>assert\<close> returns true exactly when the comparison succeeded. When the comparison
  failed it calls the escalation and returns false if the escalation returns, which
  \<open>t.Fail\<close> always does, so \<open>Check\<close> returns the outcome of the comparison; with
  \<open>t.FailNow\<close> on a context whose \<open>FailNow\<close> exits, \<open>assert\<close> does not return.
\<close>

theorem assert_returns_true_iff_succeeded:
  "recognized c \<Longrightarrow>
     ((fst (assert ext t failer af c m) = Returned True) = comparison_succeeded c)
   \<and> (\<not> comparison_succeeded c \<longrightarrow> (\<forall>t'. fst (failer t') = Returned ()) \<longrightarrow>
        fst (assert ext t failer af c m) = Returned False)
   \<and> (\<not> comparison_succeeded c \<longrightarrow>
        fst (assert ext t FailNow af c m) = (if failNowExits t then Exited else Returned False))
   \<and> fst (Check ext t c m) = Returned (comparison_succeeded c)"
proof (cases "comparison_succeeded c")
  case True
  have "fst (assert ext t failer af c m) = Returned True"
    using assert_succeeding [OF True, of ext t failer af m] by auto
  moreover have "fst (Check ext t c m) = Returned True"
    using assert_succeeding [OF True, of ext "helperT_check t" Fail filterExprArgsFromComparison m]
    by (auto simp: Check_def)
  ultimately show ?thesis using True by simp
next
  case False
  assume r: "recognized c"
  have a: "fst (assert ext t failer af c m) \<noteq> Returned True"
    using assert_failing [OF r False, of ext t failer af m] by (auto simp: after_switch_not_True)
  have b: "fst (assert ext t failer af c m) = Returned False" if "\<forall>t'. fst (failer t') = Returned ()"
    using assert_failing [OF r False, of ext t failer af m] that
    by (auto simp: after_switch_fst_returns)
  have c: "fst (assert ext t FailNow af c m) = (if failNowExits t then Exited else Returned False)"
    using assert_failing [OF r False, of ext t FailNow af m]
    by (auto simp: after_switch_FailNow)
  have d: "fst (Check ext t c m) = Returned False"
    using assert_failing [OF r False, of ext "helperT_check t" Fail filterExprArgsFromComparison m]
    by (auto simp: after_switch_Fail Check_def)
  from False a b c d show ?thesis by simp
qed

theorem assert_returns_true_iff_succeeded_witness:
  "recognized (IsCompareFunc (\<lambda>u. (False, ''boom'')))
   \<and> \<not> comparison_succeeded (IsCompareFunc (\<lambda>u. (False, ''boom'')))
   \<and> (\<forall>t'. fst (Fail t') = Returned ())
   \<and> fst (assert sourceFound fakeT Fail filterExprArgsFromComparison
             (IsCompareFunc (\<lambda>u. (False, ''boom''))) []) = Returned False
   \<and> fst (assert sourceFound testingT FailNow filterExprArgsFromComparison
             (IsCompareFunc (\<lambda>u. (False, ''boom''))) []) = Exited
   \<and> fst (Check sourceFound fakeT (IsCompareFunc (\<lambda>u. (False, ''boom''))) []) = Returned False
   \<and> fst (Check sourceFound fakeT (IsBool True) []) = Returned True"
  using assert_returns_true_iff_succeeded
      [of "IsCompareFunc (\<lambda>u. (False, ''boom''))" sourceFound fakeT Fail
          filterExprArgsFromComparison "[]"]
    assert_returns_true_iff_succeeded
      [of "IsCompareFunc (\<lambda>u. (False, ''boom''))" sourceFound testingT Fail
          filterExprArgsFromComparison "[]"]
    assert_returns_true_iff_succeeded
      [of "IsBool True" sourceFound fakeT Fail filterExprArgsFromComparison "[]"]
  by (simp add: Fail_def testingT_def)

text \<open>
  C1 as the claim states it fails: with the escalation of \<open>Assert\<close> on a context that
  behaves as \<open>testing.T\<close>, a false comparison makes \<open>assert\<close> exit, not return false.
\<close>

theorem assert_with_FailNow_returns_no_false:
  "fst (assert sourceFound testingT FailNow filterExprArgsFromComparison (IsBool False) [])
     = Exited
   \<and> fst (assert sourceFound testingT FailNow filterExprArgsFromComparison (IsBool False) [])
     \<noteq> Returned False"
  by (simp add: model_defs sourceFound_def testingT_def)

text \<open>
  C2. For a bool comparison that is false, \<open>assert\<close> calls source recovery with stack
  index 3 and argument position 1 and, before the escalation, logs
  \<open>"assertion failed: " + source + " is false"\<close> merged with \<open>msgAndArgs\<close> (after the
  text of the recovery error, when there is one). Where recovery finds \<open>total != 10\<close>
  and an empty \<open>msgAndArgs\<close> leaves the message as it is, \<open>Assert(t, total != 10)\<close> with
  \<open>total = 10\<close> logs \<open>assertion failed: total != 10 is false\<close>, calls \<open>FailNow\<close> and,
  on a context whose \<open>FailNow\<close> exits, does not return.
\<close>

theorem bool_failure_message:
  "snd (assert ext t failer af (IsBool False) m) =
     snd (failer (t\<lparr>trace := trace t @ helperCalls t
            @ [CalledFormattedCallExprArg 3 1]
            @ (case snd (FormattedCallExprArg ext 3 1) of None \<Rightarrow> [] | Some e \<Rightarrow> [CalledLog e])
            @ [CalledLog (WithCustomMessage ext
                 (''assertion failed: '' @ fst (FormattedCallExprArg ext 3 1) @ '' is false'') m)]\<rparr>))
   \<and> (FormattedCallExprArg ext 3 1 = (''total != 10'', None) \<longrightarrow>
      WithCustomMessage ext ''assertion failed: total != 10 is false'' []
        = ''assertion failed: total != 10 is false'' \<longrightarrow>
      failNowExits t \<longrightarrow>
        Assert ext t (IsBool False) [] =
          (Exited, t\<lparr>trace := trace t @ helperCalls t @ helperCalls t
             @ [CalledFormattedCallExprArg 3 1,
                CalledLog ''assertion failed: total != 10 is false'',
                CalledFailNow]\<rparr>))"
proof -
  have "assert ext t failer af (IsBool False) m =
          after_switch failer (False, t\<lparr>trace := trace t @ helperCalls t
            @ [CalledFormattedCallExprArg 3 1]
            @ (case snd (FormattedCallExprArg ext 3 1) of None \<Rightarrow> [] | Some e \<Rightarrow> [CalledLog e])
            @ [CalledLog (WithCustomMessage ext
                 (''assertion failed: '' @ fst (FormattedCallExprArg ext 3 1) @ '' is false'') m)]\<rparr>)"
    by (simp add: assert_def logFailureFromBool_def helperT_check_eq Log_def record_call_def
        failureMessage_def Let_def split: prod.splits option.splits)
  then have general: "snd (assert ext t failer af (IsBool False) m) =
     snd (failer (t\<lparr>trace := trace t @ helperCalls t
            @ [CalledFormattedCallExprArg 3 1]
            @ (case snd (FormattedCallExprArg ext 3 1) of None \<Rightarrow> [] | Some e \<Rightarrow> [CalledLog e])
            @ [CalledLog (WithCustomMessage ext
                 (''assertion failed: '' @ fst (FormattedCallExprArg ext 3 1) @ '' is false'') m)]\<rparr>))"
    by (simp only: after_switch_snd)
  have scenario: "Assert ext t (IsBool False) [] =
          (Exited, t\<lparr>trace := trace t @ helperCalls t @ helperCalls t
             @ [CalledFormattedCallExprArg 3 1,
                CalledLog ''assertion failed: total != 10 is false'',
                CalledFailNow]\<rparr>)"
    if "FormattedCallExprArg ext 3 1 = (''total != 10'', None)"
      and "WithCustomMessage ext ''assertion failed: total != 10 is false'' []
             = ''assertion failed: total != 10 is false''"
      and "failNowExits t"
    using that
    by (simp add: Assert_def discard_def assert_def logFailureFromBool_def helperT_check_eq
        helperCalls_update after_switch_FailNow Log_def record_call_def failureMessage_def Let_def)
  from general scenario show ?thesis by blast
qed

theorem bool_failure_message_witness:
  "FormattedCallExprArg sourceFound 3 1 = (''total != 10'', None)
   \<and> WithCustomMessage sourceFound ''assertion failed: total != 10 is false'' []
        = ''assertion failed: total != 10 is false''
   \<and> failNowExits testingT
   \<and> Assert sourceFound testingT (IsBool False) [] =
       (Exited, testingT\<lparr>trace :=
          [CalledHelper, CalledHelper, CalledFormattedCallExprArg 3 1,
           CalledLog ''assertion failed: total != 10 is false'', CalledFailNow]\<rparr>)"
  using bool_failure_message [of sourceFound testingT FailNow filterExprArgsFromComparison "[]"]
  by (simp add: sourceFound_def testingT_def helperCalls_def)

text \<open>
  C3. For every failing comparison, \<open>Assert\<close> ends with a call of \<open>FailNow\<close> and never
  calls \<open>Fail\<close>; on a context whose \<open>FailNow\<close> exits, \<open>Assert\<close> exits and no code of
  the caller after the call runs. \<open>Check\<close> ends with a call of \<open>Fail\<close>, never calls
  \<open>FailNow\<close>, returns false, and the code of the caller after the call runs, with
  that result.
\<close>

theorem Assert_stops_Check_continues:
  "recognized c \<Longrightarrow> \<not> comparison_succeeded c \<Longrightarrow>
     (\<exists>pre. trace (snd (Assert ext t c m)) = trace t @ pre @ [CalledFailNow]
        \<and> CalledFail \<notin> set pre \<and> CalledFailNow \<notin> set pre)
   \<and> (failNowExits t \<longrightarrow>
        fst (Assert ext t c m) = Exited
        \<and> (\<forall>k. andThen (\<lambda>w. Assert ext w c m) k t = (Exited, snd (Assert ext t c m))))
   \<and> (\<exists>pre. trace (snd (Check ext t c m)) = trace t @ pre @ [CalledFail]
        \<and> CalledFail \<notin> set pre \<and> CalledFailNow \<notin> set pre)
   \<and> fst (Check ext t c m) = Returned False
   \<and> (\<forall>k. andThen (\<lambda>w. Check ext w c m) k t = k False (snd (Check ext t c m)))"
proof -
  assume r: "recognized c" and f: "\<not> comparison_succeeded c"
  let ?t = "helperT_check t"
  obtain pre msg where
    a: "assert ext ?t FailNow filterExprArgsFromComparison c m =
          after_switch FailNow (False, ?t\<lparr>trace := trace ?t @ pre @ [CalledLog msg]\<rparr>)"
    and pre: "CalledFail \<notin> set pre" "CalledFailNow \<notin> set pre"
    using assert_failing [OF r f, of ext ?t FailNow filterExprArgsFromComparison m] by blast
  obtain pre' msg' where
    b: "assert ext ?t Fail filterExprArgsFromComparison c m =
          after_switch Fail (False, ?t\<lparr>trace := trace ?t @ pre' @ [CalledLog msg']\<rparr>)"
    and pre': "CalledFail \<notin> set pre'" "CalledFailNow \<notin> set pre'"
    using assert_failing [OF r f, of ext ?t Fail filterExprArgsFromComparison m] by blast
  have A: "Assert ext t c m =
      (if failNowExits t then Exited else Returned (),
       t\<lparr>trace := trace t @ (helperCalls t @ pre @ [CalledLog msg]) @ [CalledFailNow]\<rparr>)"
    by (simp add: Assert_def a after_switch_FailNow discard_def) (simp add: helperT_check_eq)
  have C: "Check ext t c m =
      (Returned False,
       t\<lparr>trace := trace t @ (helperCalls t @ pre' @ [CalledLog msg']) @ [CalledFail]\<rparr>)"
    by (simp add: Check_def b after_switch_Fail) (simp add: helperT_check_eq)
  have 1: "\<exists>pre. trace (snd (Assert ext t c m)) = trace t @ pre @ [CalledFailNow]
        \<and> CalledFail \<notin> set pre \<and> CalledFailNow \<notin> set pre"
  proof (intro exI conjI)
    show "trace (snd (Assert ext t c m))
            = trace t @ (helperCalls t @ pre @ [CalledLog msg]) @ [CalledFailNow]"
      by (simp add: A)
  qed (use pre in \<open>auto simp: helperCalls_def\<close>)
  have 2: "\<exists>pre. trace (snd (Check ext t c m)) = trace t @ pre @ [CalledFail]
        \<and> CalledFail \<notin> set pre \<and> CalledFailNow \<notin> set pre"
  proof (intro exI conjI)
    show "trace (snd (Check ext t c m))
            = trace t @ (helperCalls t @ pre' @ [CalledLog msg']) @ [CalledFail]"
      by (simp add: C)
  qed (use pre' in \<open>auto simp: helperCalls_def\<close>)
  have 3: "fst (Assert ext t c m) = Exited
        \<and> (\<forall>k. andThen (\<lambda>w. Assert ext w c m) k t = (Exited, snd (Assert ext t c m)))"
    if "failNowExits t"
    using that by (simp add: A andThen_def)
  have 4: "fst (Check ext t c m) = Returned False
   \<and> (\<forall>k. andThen (\<lambda>w. Check ext w c m) k t = k False (snd (Check ext t c m)))"
    by (simp add: C andThen_def)
  from 1 2 3 4 show ?thesis by blast
qed

theorem Assert_stops_Check_continues_witness:
  "recognized (IsComparison (\<lambda>u. Failure ''boom''))
   \<and> \<not> comparison_succeeded (IsComparison (\<lambda>u. Failure ''boom''))
   \<and> failNowExits testingT
   \<and> (\<exists>pre. trace (snd (Assert sourceFound testingT (IsComparison (\<lambda>u. Failure ''boom'')) []))
               = trace testingT @ pre @ [CalledFailNow]
        \<and> CalledFail \<notin> set pre \<and> CalledFailNow \<notin> set pre)
   \<and> fst (Assert sourceFound testingT (IsComparison (\<lambda>u. Failure ''boom'')) []) = Exited
   \<and> (\<forall>k. andThen (\<lambda>w. Assert sourceFound w (IsComparison (\<lambda>u. Failure ''boom'')) []) k testingT
       = (Exited, snd (Assert sourceFound testingT (IsComparison (\<lambda>u. Failure ''boom'')) [])))
   \<and> (\<exists>pre. trace (snd (Check sourceFound testingT (IsComparison (\<lambda>u. Failure ''boom'')) []))
               = trace testingT @ pre @ [CalledFail]
        \<and> CalledFail \<notin> set pre \<and> CalledFailNow \<notin> set pre)
   \<and> fst (Check sourceFound testingT (IsComparison (\<lambda>u. Failure ''boom'')) []) = Returned False
   \<and> (\<forall>k. andThen (\<lambda>w. Check sourceFound w (IsComparison (\<lambda>u. Failure ''boom'')) []) k testingT
       = k False (snd (Check sourceFound testingT (IsComparison (\<lambda>u. Failure ''boom'')) [])))"
proof -
  have r: "recognized (IsComparison (\<lambda>u. Failure ''boom''))"
    by simp
  have f: "\<not> comparison_succeeded (IsComparison (\<lambda>u. Failure ''boom''))"
    by simp
  have x: "failNowExits testingT"
    by (simp add: testingT_def)
  from Assert_stops_Check_continues [OF r f, of sourceFound testingT "[]"] r f x
  show ?thesis by blast
qed

text \<open>
  C4. A comparison value of any other dynamic type makes \<open>assert\<close> panic with the
  message naming the type. Nothing is logged and neither \<open>Fail\<close> nor \<open>FailNow\<close> is
  called: the only calls made are the \<open>Helper()\<close> calls of the \<open>helperT\<close> checks. The
  same holds through \<open>Check\<close> and \<open>Assert\<close>.
\<close>

theorem unrecognized_comparison_panics:
  "assert ext t failer af (OtherType ty) m =
     (Panicked (''comparison arg must be bool or Comparison, not '' @ ty),
      t\<lparr>trace := trace t @ helperCalls t\<rparr>)
   \<and> Check ext t (OtherType ty) m =
     (Panicked (''comparison arg must be bool or Comparison, not '' @ ty),
      t\<lparr>trace := trace t @ helperCalls t @ helperCalls t\<rparr>)
   \<and> Assert ext t (OtherType ty) m =
     (Panicked (''comparison arg must be bool or Comparison, not '' @ ty),
      t\<lparr>trace := trace t @ helperCalls t @ helperCalls t\<rparr>)
   \<and> set (helperCalls t) \<subseteq> {CalledHelper}"
  by (simp add: assert_def Check_def Assert_def discard_def helperT_check_eq helperCalls_update)
     (auto simp: helperCalls_def)

theorem unrecognized_comparison_panics_witness:
  "Check sourceFound testingT (OtherType ''int'') [] =
     (Panicked ''comparison arg must be bool or Comparison, not int'',
      testingT\<lparr>trace := [CalledHelper, CalledHelper]\<rparr>)"
  using unrecognized_comparison_panics
      [of sourceFound testingT Fail filterExprArgsFromComparison "''int''" "[]"]
  by (simp add: helperCalls_def testingT_def)

text \<open>
  C5. For a legacy two-value comparison function \<open>f\<close>, \<open>assert\<close> calls \<open>f\<close> once. When
  \<open>f\<close> returns \<open>(false, msg)\<close> the one message logged before the escalation is
  \<open>"assertion failed: " + msg\<close> merged with \<open>msgAndArgs\<close>, and source recovery is not
  called; when \<open>f\<close> returns success, \<open>assert\<close> returns true and logs nothing.
\<close>

theorem legacy_compare_func:
  "(f () = (False, msg) \<longrightarrow>
      snd (assert ext t failer af (IsCompareFunc f) m) =
        snd (failer (t\<lparr>trace := trace t @ helperCalls t @ helperCalls t
               @ [CalledCompareFunc,
                  CalledLog (WithCustomMessage ext (''assertion failed: '' @ msg) m)]\<rparr>))
      \<and> Check ext t (IsCompareFunc f) m =
          (Returned False,
           t\<lparr>trace := trace t @ helperCalls t @ helperCalls t @ helperCalls t
               @ [CalledCompareFunc,
                  CalledLog (WithCustomMessage ext (''assertion failed: '' @ msg) m),
                  CalledFail]\<rparr>))
   \<and> (f () = (True, msg) \<longrightarrow>
      assert ext t failer af (IsCompareFunc f) m =
        (Returned True,
         t\<lparr>trace := trace t @ helperCalls t @ helperCalls t @ [CalledCompareFunc]\<rparr>))"
proof -
  have fail: "assert ext t failer af (IsCompareFunc f) m =
      after_switch failer (False, t\<lparr>trace := trace t @ helperCalls t @ helperCalls t
               @ [CalledCompareFunc,
                  CalledLog (WithCustomMessage ext (''assertion failed: '' @ msg) m)]\<rparr>)"
    if "f () = (False, msg)" for t :: world and failer af
    using that
    by (simp add: assert_def runCompareFunc_def helperT_check_eq helperCalls_update Log_def
        record_call_def failureMessage_def Let_def)
  have ok: "assert ext t failer af (IsCompareFunc f) m =
        (Returned True,
         t\<lparr>trace := trace t @ helperCalls t @ helperCalls t @ [CalledCompareFunc]\<rparr>)"
    if "f () = (True, msg)"
    using that
    by (simp add: assert_def runCompareFunc_def after_switch_def helperT_check_eq
        helperCalls_update record_call_def Let_def)
  have chk: "Check ext t (IsCompareFunc f) m =
          (Returned False,
           t\<lparr>trace := trace t @ helperCalls t @ helperCalls t @ helperCalls t
               @ [CalledCompareFunc,
                  CalledLog (WithCustomMessage ext (''assertion failed: '' @ msg) m),
                  CalledFail]\<rparr>)"
    if "f () = (False, msg)"
    by (simp add: Check_def fail [OF that] after_switch_Fail helperT_check_eq helperCalls_update)
  from fail ok chk show ?thesis by (simp add: after_switch_snd)
qed

theorem legacy_compare_func_witness:
  "Check sourceFound testingT (IsCompareFunc (\<lambda>u. (False, ''boom''))) [] =
     (Returned False,
      testingT\<lparr>trace := [CalledHelper, CalledHelper, CalledHelper, CalledCompareFunc,
                          CalledLog ''assertion failed: boom'', CalledFail]\<rparr>)
   \<and> assert sourceFound fakeT Fail filterExprArgsFromComparison
        (IsCompareFunc (\<lambda>u. (True, ''unused''))) [] =
     (Returned True, fakeT\<lparr>trace := [CalledCompareFunc]\<rparr>)"
  using legacy_compare_func
      [of "\<lambda>u. (False, ''boom'')" "''boom''" sourceFound testingT Fail
          filterExprArgsFromComparison "[]"]
    legacy_compare_func
      [of "\<lambda>u. (True, ''unused'')" "''unused''" sourceFound fakeT Fail
          filterExprArgsFromComparison "[]"]
  by (simp add: testingT_def fakeT_def helperCalls_def sourceFound_def)

text \<open>
  C6. When source recovery returns an error for a false bool comparison, the error does
  not reach the caller: \<open>Check\<close> returns false and \<open>Assert\<close> ends as after any failure.
  The text of the error is logged, then the failure message, so something is logged,
  and the escalation is called after both.
\<close>

theorem recovery_error_is_logged:
  "FormattedCallExprArg ext 3 1 = (src, Some e) \<Longrightarrow>
     Check ext t (IsBool False) m =
       (Returned False,
        t\<lparr>trace := trace t @ helperCalls t @ helperCalls t
            @ [CalledFormattedCallExprArg 3 1, CalledLog e,
               CalledLog (WithCustomMessage ext (''assertion failed: '' @ src @ '' is false'') m),
               CalledFail]\<rparr>)
   \<and> Assert ext t (IsBool False) m =
       (if failNowExits t then Exited else Returned (),
        t\<lparr>trace := trace t @ helperCalls t @ helperCalls t
            @ [CalledFormattedCallExprArg 3 1, CalledLog e,
               CalledLog (WithCustomMessage ext (''assertion failed: '' @ src @ '' is false'') m),
               CalledFailNow]\<rparr>)
   \<and> snd (assert ext t failer af (IsBool False) m) =
       snd (failer (t\<lparr>trace := trace t @ helperCalls t
            @ [CalledFormattedCallExprArg 3 1, CalledLog e,
               CalledLog (WithCustomMessage ext (''assertion failed: '' @ src @ '' is false'') m)]\<rparr>))
   \<and> logged (trace (snd (Check ext t (IsBool False) m))) \<noteq> []
   \<and> e \<in> set (logged (trace (snd (Check ext t (IsBool False) m))))"
proof -
  assume rec: "FormattedCallExprArg ext 3 1 = (src, Some e)"
  have a: "assert ext t failer af (IsBool False) m =
      after_switch failer (False, t\<lparr>trace := trace t @ helperCalls t
            @ [CalledFormattedCallExprArg 3 1, CalledLog e,
               CalledLog (WithCustomMessage ext (''assertion failed: '' @ src @ '' is false'') m)]\<rparr>)"
    for t :: world and failer af
    using rec
    by (simp add: assert_def logFailureFromBool_def helperT_check_eq Log_def record_call_def
        failureMessage_def Let_def)
  have c: "Check ext t (IsBool False) m =
       (Returned False,
        t\<lparr>trace := trace t @ helperCalls t @ helperCalls t
            @ [CalledFormattedCallExprArg 3 1, CalledLog e,
               CalledLog (WithCustomMessage ext (''assertion failed: '' @ src @ '' is false'') m),
               CalledFail]\<rparr>)"
    by (simp add: Check_def a after_switch_Fail helperT_check_eq helperCalls_update)
  have b: "Assert ext t (IsBool False) m =
       (if failNowExits t then Exited else Returned (),
        t\<lparr>trace := trace t @ helperCalls t @ helperCalls t
            @ [CalledFormattedCallExprArg 3 1, CalledLog e,
               CalledLog (WithCustomMessage ext (''assertion failed: '' @ src @ '' is false'') m),
               CalledFailNow]\<rparr>)"
    by (simp add: Assert_def a after_switch_FailNow discard_def helperT_check_eq helperCalls_update)
  have d: "logged (trace (snd (Check ext t (IsBool False) m))) =
      logged (trace t) @ [e, WithCustomMessage ext (''assertion failed: '' @ src @ '' is false'') m]"
    by (simp add: c logged_append logged_helperCalls)
  show ?thesis
    by (simp add: a after_switch_snd d) (simp add: b c)
qed

theorem recovery_error_is_logged_witness:
  "FormattedCallExprArg sourceMissing 3 1 = ([], Some ''failed to read source'')
   \<and> Check sourceMissing fakeT (IsBool False) [] =
       (Returned False,
        fakeT\<lparr>trace := [CalledFormattedCallExprArg 3 1, CalledLog ''failed to read source'',
                         CalledLog ''assertion failed:  is false'', CalledFail]\<rparr>)"
proof -
  have h: "FormattedCallExprArg sourceMissing 3 1 = ([], Some ''failed to read source'')"
    by (simp add: sourceMissing_def sourceFound_def)
  from recovery_error_is_logged [OF h, of fakeT "[]" Fail filterExprArgsFromComparison] h
  show ?thesis
    by (simp add: sourceMissing_def sourceFound_def fakeT_def helperCalls_def)
qed

text \<open>
  C7, amended. For a bool comparison that is false, \<open>Log\<close> is called once when source
  recovery succeeds and twice when it returns an error (the text of the error, then
  the failure message); in both cases the escalation is called once: \<open>Fail\<close> by
  \<open>Check\<close>, \<open>FailNow\<close> by \<open>Assert\<close>, and not the other one.
\<close>

theorem bool_failure_log_count:
  "(snd (FormattedCallExprArg ext 3 1) = None \<longrightarrow>
      logged (trace (snd (Check ext t (IsBool False) m))) = logged (trace t) @
        [WithCustomMessage ext
           (''assertion failed: '' @ fst (FormattedCallExprArg ext 3 1) @ '' is false'') m]
    \<and> logged (trace (snd (Assert ext t (IsBool False) m))) = logged (trace t) @
        [WithCustomMessage ext
           (''assertion failed: '' @ fst (FormattedCallExprArg ext 3 1) @ '' is false'') m])
   \<and> (snd (FormattedCallExprArg ext 3 1) = Some e \<longrightarrow>
      logged (trace (snd (Check ext t (IsBool False) m))) = logged (trace t) @
        [e, WithCustomMessage ext
              (''assertion failed: '' @ fst (FormattedCallExprArg ext 3 1) @ '' is false'') m]
    \<and> logged (trace (snd (Assert ext t (IsBool False) m))) = logged (trace t) @
        [e, WithCustomMessage ext
              (''assertion failed: '' @ fst (FormattedCallExprArg ext 3 1) @ '' is false'') m])
   \<and> escalations (trace (snd (Check ext t (IsBool False) m)))
       = escalations (trace t) @ [CalledFail]
   \<and> escalations (trace (snd (Assert ext t (IsBool False) m)))
       = escalations (trace t) @ [CalledFailNow]"
proof -
  let ?msg = "WithCustomMessage ext
           (''assertion failed: '' @ fst (FormattedCallExprArg ext 3 1) @ '' is false'') m"
  let ?err = "case snd (FormattedCallExprArg ext 3 1) of None \<Rightarrow> [] | Some e \<Rightarrow> [CalledLog e]"
  have a: "assert ext t failer af (IsBool False) m =
      after_switch failer (False, t\<lparr>trace := trace t @ helperCalls t
            @ [CalledFormattedCallExprArg 3 1] @ ?err @ [CalledLog ?msg]\<rparr>)"
    for t :: world and failer af
    by (simp add: assert_def logFailureFromBool_def helperT_check_eq Log_def record_call_def
        failureMessage_def Let_def split: prod.splits option.splits)
  have c: "trace (snd (Check ext t (IsBool False) m)) =
      trace t @ helperCalls t @ helperCalls t
        @ [CalledFormattedCallExprArg 3 1] @ ?err @ [CalledLog ?msg, CalledFail]"
    by (simp add: Check_def a after_switch_Fail helperT_check_eq helperCalls_update)
  have b: "trace (snd (Assert ext t (IsBool False) m)) =
      trace t @ helperCalls t @ helperCalls t
        @ [CalledFormattedCallExprArg 3 1] @ ?err @ [CalledLog ?msg, CalledFailNow]"
    by (simp add: Assert_def a after_switch_FailNow discard_def helperT_check_eq helperCalls_update)
  have h: "escalations (helperCalls t) = []" "escalations ?err = []"
    by (simp_all add: escalations_def helperCalls_def split: option.splits)
  have esc: "escalations (xs @ ys) = escalations xs @ escalations ys" for xs ys
    by (simp add: escalations_def)
  have e1: "escalations (trace (snd (Check ext t (IsBool False) m)))
       = escalations (trace t) @ [CalledFail]"
    unfolding c esc h by (simp add: escalations_def)
  have e2: "escalations (trace (snd (Assert ext t (IsBool False) m)))
       = escalations (trace t) @ [CalledFailNow]"
    unfolding b esc h by (simp add: escalations_def)
  show ?thesis
    by (simp add: e1 e2) (simp add: b c logged_append logged_helperCalls)
qed

theorem bool_failure_log_count_witness:
  "snd (FormattedCallExprArg sourceFound 3 1) = None
   \<and> logged (trace (snd (Assert sourceFound testingT (IsBool False) [])))
       = [''assertion failed: total != 10 is false'']
   \<and> snd (FormattedCallExprArg sourceMissing 3 1) = Some ''failed to read source''
   \<and> logged (trace (snd (Assert sourceMissing testingT (IsBool False) [])))
       = [''failed to read source'', ''assertion failed:  is false'']
   \<and> escalations (trace (snd (Assert sourceMissing testingT (IsBool False) [])))
       = [CalledFailNow]"
  using bool_failure_log_count [of sourceFound testingT "[]" "''unused''"]
    bool_failure_log_count [of sourceMissing testingT "[]" "''failed to read source''"]
  by (simp add: sourceMissing_def sourceFound_def testingT_def escalations_def)

text \<open>
  C7 as the claim states it fails: when recovery returns an error, a false bool
  comparison is logged twice, the text of the error and then the failure message.
\<close>

theorem bool_failure_logs_twice_on_recovery_error:
  "logged (trace (snd (Check sourceMissing fakeT (IsBool False) [])))
     = [''failed to read source'', ''assertion failed:  is false'']
   \<and> length (logged (trace (snd (Check sourceMissing fakeT (IsBool False) [])))) \<noteq> 1"
  by (simp add: model_defs sourceMissing_def sourceFound_def fakeT_def)

text \<open>
  C8. On every failing comparison the call of the escalation, \<open>Fail\<close> or \<open>FailNow\<close>,
  is the last call \<open>assert\<close> makes, the call just before it is the \<open>Log\<close> of the
  failure message, and no escalation is called before that.
\<close>

theorem log_before_escalation:
  "recognized c \<Longrightarrow> \<not> comparison_succeeded c \<Longrightarrow>
     (\<exists>pre msg. trace (snd (assert ext t Fail af c m))
                   = trace t @ pre @ [CalledLog msg, CalledFail]
        \<and> CalledFail \<notin> set pre \<and> CalledFailNow \<notin> set pre)
   \<and> (\<exists>pre msg. trace (snd (assert ext t FailNow af c m))
                   = trace t @ pre @ [CalledLog msg, CalledFailNow]
        \<and> CalledFail \<notin> set pre \<and> CalledFailNow \<notin> set pre)"
proof -
  assume r: "recognized c" and f: "\<not> comparison_succeeded c"
  obtain pre msg where
    a: "assert ext t Fail af c m =
          after_switch Fail (False, t\<lparr>trace := trace t @ pre @ [CalledLog msg]\<rparr>)"
    and pre: "CalledFail \<notin> set pre" "CalledFailNow \<notin> set pre"
    using assert_failing [OF r f, of ext t Fail af m] by blast
  obtain pre' msg' where
    b: "assert ext t FailNow af c m =
          after_switch FailNow (False, t\<lparr>trace := trace t @ pre' @ [CalledLog msg']\<rparr>)"
    and pre': "CalledFail \<notin> set pre'" "CalledFailNow \<notin> set pre'"
    using assert_failing [OF r f, of ext t FailNow af m] by blast
  have "trace (snd (assert ext t Fail af c m)) = trace t @ pre @ [CalledLog msg, CalledFail]"
    by (simp add: a after_switch_Fail)
  with pre have 1: "\<exists>pre msg. trace (snd (assert ext t Fail af c m))
                   = trace t @ pre @ [CalledLog msg, CalledFail]
        \<and> CalledFail \<notin> set pre \<and> CalledFailNow \<notin> set pre"
    by blast
  have "trace (snd (assert ext t FailNow af c m))
          = trace t @ pre' @ [CalledLog msg', CalledFailNow]"
    by (simp add: b after_switch_FailNow)
  with pre' have 2: "\<exists>pre msg. trace (snd (assert ext t FailNow af c m))
                   = trace t @ pre @ [CalledLog msg, CalledFailNow]
        \<and> CalledFail \<notin> set pre \<and> CalledFailNow \<notin> set pre"
    by blast
  from 1 2 show ?thesis by blast
qed

theorem log_before_escalation_witness:
  "recognized (IsBool False) \<and> \<not> comparison_succeeded (IsBool False)
   \<and> (\<exists>pre msg. trace (snd (assert sourceMissing testingT Fail filterExprArgsFromComparison
                               (IsBool False) [''extra'']))
                   = trace testingT @ pre @ [CalledLog msg, CalledFail]
        \<and> CalledFail \<notin> set pre \<and> CalledFailNow \<notin> set pre)
   \<and> (\<exists>pre msg. trace (snd (assert sourceMissing testingT FailNow filterExprArgsFromComparison
                               (IsBool False) [''extra'']))
                   = trace testingT @ pre @ [CalledLog msg, CalledFailNow]
        \<and> CalledFail \<notin> set pre \<and> CalledFailNow \<notin> set pre)"
proof -
  have r: "recognized (IsBool False)"
    by simp
  have f: "\<not> comparison_succeeded (IsBool False)"
    by simp
  from log_before_escalation
         [OF r f, of sourceMissing testingT filterExprArgsFromComparison "[''extra'']"] r f
  show ?thesis by blast
qed

text \<open>
  C9. For every comparison that succeeds, \<open>assert\<close> returns true, whatever the
  escalation, and the only calls it makes are the \<open>Helper()\<close> calls of the \<open>helperT\<close>
  checks and the one call of the comparison: no \<open>Log\<close>, no \<open>Fail\<close>, no \<open>FailNow\<close>,
  no source recovery. The same holds through \<open>Check\<close>.
\<close>

theorem success_makes_no_report:
  "comparison_succeeded c \<Longrightarrow>
     (\<exists>new. assert ext t failer af c m = (Returned True, t\<lparr>trace := trace t @ new\<rparr>)
        \<and> set new \<subseteq> {CalledHelper, CalledCompareFunc, CalledComparison})
   \<and> (\<exists>new. Check ext t c m = (Returned True, t\<lparr>trace := trace t @ new\<rparr>)
        \<and> set new \<subseteq> {CalledHelper, CalledCompareFunc, CalledComparison})
   \<and> logged (trace (snd (Check ext t c m))) = logged (trace t)
   \<and> escalations (trace (snd (Check ext t c m))) = escalations (trace t)"
proof -
  assume s: "comparison_succeeded c"
  obtain new where
    c: "assert ext (helperT_check t) Fail filterExprArgsFromComparison c m =
          (Returned True, (helperT_check t)\<lparr>trace := trace (helperT_check t) @ new\<rparr>)"
    and new: "set new \<subseteq> {CalledHelper, CalledCompareFunc, CalledComparison}"
    using assert_succeeding [OF s, of ext "helperT_check t" Fail filterExprArgsFromComparison m]
    by blast
  have C: "Check ext t c m = (Returned True, t\<lparr>trace := trace t @ (helperCalls t @ new)\<rparr>)"
    by (simp add: Check_def c) (simp add: helperT_check_eq)
  have sub: "set (helperCalls t @ new) \<subseteq> {CalledHelper, CalledCompareFunc, CalledComparison}"
    using new by (auto simp: helperCalls_def)
  have quiet: "logged xs = [] \<and> escalations xs = []"
    if "set xs \<subseteq> {CalledHelper, CalledCompareFunc, CalledComparison}" for xs
    using that by (induction xs) (auto simp: escalations_def)
  have 1: "logged (trace (snd (Check ext t c m))) = logged (trace t)"
    using quiet [OF sub] by (simp add: C logged_append del: append_assoc)
  have 2: "escalations (trace (snd (Check ext t c m))) = escalations (trace t)"
    using quiet [OF sub] by (simp add: C escalations_def del: append_assoc)
  from C sub have 3: "\<exists>new. Check ext t c m = (Returned True, t\<lparr>trace := trace t @ new\<rparr>)
        \<and> set new \<subseteq> {CalledHelper, CalledCompareFunc, CalledComparison}"
    by blast
  from assert_succeeding [OF s, of ext t failer af m] 1 2 3 show ?thesis
    by blast
qed

theorem success_makes_no_report_witness:
  "comparison_succeeded (IsBool True)
   \<and> (\<exists>new. Check sourceFound testingT (IsBool True) []
               = (Returned True, testingT\<lparr>trace := trace testingT @ new\<rparr>)
        \<and> set new \<subseteq> {CalledHelper, CalledCompareFunc, CalledComparison})
   \<and> logged (trace (snd (Check sourceFound testingT (IsBool True) []))) = logged (trace testingT)"
proof -
  have s: "comparison_succeeded (IsBool True)"
    by simp
  from success_makes_no_report [OF s, of sourceFound testingT Fail filterExprArgsFromComparison "[]"] s
  show ?thesis by blast
qed




end
